theory Spec2Isabelle
  imports Main "HOL-Library.Monad_Syntax" "HOL-Library.Multiset"
    "HOL-Library.List_Lexorder" "HOL-Library.Char_ord"
begin

section \<open>JavaScript values\<close>

text \<open>
  The helpers of \<^verbatim>\<open>helpers.ts\<close> take \<^verbatim>\<open>any\<close>: data parsed from the CRM's JSON
  responses. A value is one of the JSON shapes, \<^verbatim>\<open>undefined\<close>, or a built-in function
  (reading \<^verbatim>\<open>.values\<close> of an array yields \<^verbatim>\<open>Array.prototype.values\<close>). Numbers are the
  integers, where double arithmetic is exact, and \<^verbatim>\<open>NaN\<close>, the result of a failed
  coercion. An object is the list of its own properties in enumeration order; property
  names are data keys (the special name \<^verbatim>\<open>__proto__\<close> is outside the model). Strings
  are lists of code units, compared unit by unit. A thrown \<^verbatim>\<open>TypeError\<close> is the
  result \<open>None\<close>.
\<close>

datatype jsnum = Fin int | NaN

datatype jv =
    JUndef
  | JNull
  | JBool bool
  | JNum jsnum
  | JStr string
  | JArr "jv list"
  | JObj "(string \<times> jv) list"
  | JFun string

fun truthy :: "jv \<Rightarrow> bool" where
  "truthy JUndef = False"
| "truthy JNull = False"
| "truthy (JBool b) = b"
| "truthy (JNum (Fin n)) = (n \<noteq> 0)"
| "truthy (JNum NaN) = False"
| "truthy (JStr s) = (s \<noteq> [])"
| "truthy (JArr xs) = True"
| "truthy (JObj kvs) = True"
| "truthy (JFun f) = True"

text \<open>\<^verbatim>\<open>a || b\<close> and \<^verbatim>\<open>a ?? b\<close>.\<close>

definition js_or :: "jv \<Rightarrow> jv \<Rightarrow> jv" where
  "js_or a b = (if truthy a then a else b)"

definition nullish :: "jv \<Rightarrow> bool" where
  "nullish v = (v = JUndef \<or> v = JNull)"


definition is_string :: "jv \<Rightarrow> bool" where
  "is_string v = (case v of JStr s \<Rightarrow> True | _ \<Rightarrow> False)"

definition is_array :: "jv \<Rightarrow> bool" where
  "is_array v = (case v of JArr xs \<Rightarrow> True | _ \<Rightarrow> False)"

text \<open>\<^verbatim>\<open>typeof v === "object"\<close> holds of objects, arrays and \<^verbatim>\<open>null\<close>.\<close>

definition typeof_object :: "jv \<Rightarrow> bool" where
  "typeof_object v = (case v of JNull \<Rightarrow> True | JArr xs \<Rightarrow> True | JObj kvs \<Rightarrow> True | _ \<Rightarrow> False)"

subsection \<open>Number and string conversions\<close>

definition digit_char :: "nat \<Rightarrow> char" where
  "digit_char d = char_of (48 + d)"

fun show_nat :: "nat \<Rightarrow> string" where
  "show_nat n = (if n < 10 then [digit_char n] else show_nat (n div 10) @ [digit_char (n mod 10)])"

declare show_nat.simps [simp del]

definition show_int :: "int \<Rightarrow> string" where
  "show_int i = (if i < 0 then CHR ''-'' # show_nat (nat (- i)) else show_nat (nat i))"

text \<open>
  \<^verbatim>\<open>String(v)\<close> and the conversion inside a template literal. An array joins its
  elements with commas, \<^verbatim>\<open>null\<close> and \<^verbatim>\<open>undefined\<close> elements as the empty string.
\<close>

fun join_comma :: "string list \<Rightarrow> string" where
  "join_comma [] = []"
| "join_comma [s] = s"
| "join_comma (s # t # ss) = s @ '','' @ join_comma (t # ss)"

fun toStr :: "jv \<Rightarrow> string" where
  "toStr JUndef = ''undefined''"
| "toStr JNull = ''null''"
| "toStr (JBool b) = (if b then ''true'' else ''false'')"
| "toStr (JNum (Fin n)) = show_int n"
| "toStr (JNum NaN) = ''NaN''"
| "toStr (JStr s) = s"
| "toStr (JArr xs) =
     join_comma (map (\<lambda>x. if x = JUndef \<or> x = JNull then [] else toStr x) xs)"
| "toStr (JObj kvs) = ''[object Object]''"
| "toStr (JFun f) = ''function '' @ f @ ''() { [native code] }''"

text \<open>
  \<^verbatim>\<open>Number(v)\<close>. The host's parser of numeric strings is the parameter \<open>str2num\<close>;
  an object converts through the string \<^verbatim>\<open>[object Object]\<close>, which is no numeral.
\<close>

fun toNumber :: "(string \<Rightarrow> jsnum) \<Rightarrow> jv \<Rightarrow> jsnum" where
  "toNumber str2num JUndef = NaN"
| "toNumber str2num JNull = Fin 0"
| "toNumber str2num (JBool b) = (if b then Fin 1 else Fin 0)"
| "toNumber str2num (JNum n) = n"
| "toNumber str2num (JStr s) = str2num s"
| "toNumber str2num (JArr xs) = str2num (toStr (JArr xs))"
| "toNumber str2num (JObj kvs) = NaN"
| "toNumber str2num (JFun f) = NaN"


definition is_ws :: "char \<Rightarrow> bool" where
  "is_ws c = (c \<in> set [CHR '' '', CHR 0x09, CHR 0x0A, CHR 0x0B, CHR 0x0C, CHR 0x0D])"

definition trim :: "string \<Rightarrow> string" where
  "trim s = rev (dropWhile is_ws (rev (dropWhile is_ws s)))"

subsection \<open>Property access\<close>

text \<open>
  \<open>getp v k\<close> is \<^verbatim>\<open>v.k\<close> for a \<open>v\<close> that is neither \<^verbatim>\<open>null\<close> nor
  \<^verbatim>\<open>undefined\<close>, for the data keys the helpers read. Of the prototypes' members only
  \<^verbatim>\<open>Array.prototype.values\<close> and a function's \<^verbatim>\<open>name\<close> carry one of those keys.
\<close>

fun getp :: "jv \<Rightarrow> string \<Rightarrow> jv" where
  "getp (JObj kvs) k = (case map_of kvs k of Some v \<Rightarrow> v | None \<Rightarrow> JUndef)"
| "getp (JArr xs) k = (if k = ''values'' then JFun ''values'' else JUndef)"
| "getp (JFun f) k = (if k = ''name'' then JStr f else JUndef)"
| "getp _ k = JUndef"

text \<open>\<^verbatim>\<open>v.k\<close>: throws on \<^verbatim>\<open>null\<close> and \<^verbatim>\<open>undefined\<close>.\<close>

definition get_strict :: "jv \<Rightarrow> string \<Rightarrow> jv option" where
  "get_strict v k = (if nullish v then None else Some (getp v k))"

text \<open>\<^verbatim>\<open>v?.k\<close>.\<close>

definition get_opt :: "jv \<Rightarrow> string \<Rightarrow> jv" where
  "get_opt v k = (if nullish v then JUndef else getp v k)"

text \<open>\<^verbatim>\<open>v[0]\<close> for a \<open>v\<close> that is neither \<^verbatim>\<open>null\<close> nor \<^verbatim>\<open>undefined\<close>.\<close>

fun idx0 :: "jv \<Rightarrow> jv" where
  "idx0 (JArr xs) = (case xs of [] \<Rightarrow> JUndef | x # _ \<Rightarrow> x)"
| "idx0 (JStr s) = (case s of [] \<Rightarrow> JUndef | c # _ \<Rightarrow> JStr [c])"
| "idx0 (JObj kvs) = (case map_of kvs ''0'' of Some v \<Rightarrow> v | None \<Rightarrow> JUndef)"
| "idx0 _ = JUndef"

text \<open>\<^verbatim>\<open>v?.[0]\<close>.\<close>

definition idx0_opt :: "jv \<Rightarrow> jv" where
  "idx0_opt v = (if nullish v then JUndef else idx0 v)"

text \<open>\<^verbatim>\<open>obj[key] = v\<close> on an object's own properties.\<close>

fun set_prop :: "string \<Rightarrow> jv \<Rightarrow> (string \<times> jv) list \<Rightarrow> (string \<times> jv) list" where
  "set_prop k v [] = [(k, v)]"
| "set_prop k v ((k', v') # kvs) =
     (if k = k' then (k, v) # kvs else (k', v') # set_prop k v kvs)"

section \<open>Record name extraction\<close>

text \<open>
  A block of \<^verbatim>\<open>extractRecordName\<close> either returns from the function or falls
  through to the next block. Where the source reads the right operand of \<^verbatim>\<open>||\<close> only
  when the left one is falsy, the model reads both: the two are properties of the same
  object, so that the one read throws exactly when the other does.
\<close>

datatype flow = Return jv | Fallthrough

text \<open>
  \<^verbatim>\<open>`${first || ""} ${last || ""}`.trim()\<close>
\<close>

definition first_last :: "jv \<Rightarrow> jv \<Rightarrow> string" where
  "first_last first_name last_name =
     trim (toStr (js_or first_name (JStr [])) @ '' '' @ toStr (js_or last_name (JStr [])))"

definition name_block :: "jv \<Rightarrow> flow option" where
  "name_block nameVal =
     (if truthy nameVal then do {
        full_name \<leftarrow> get_strict nameVal ''full_name'';
        if truthy full_name then Some (Return full_name)
        else do {
          first_name \<leftarrow> get_strict nameVal ''first_name'';
          last_name \<leftarrow> get_strict nameVal ''last_name'';
          if truthy first_name \<or> truthy last_name
            then Some (Return (JStr (first_last first_name last_name)))
          else if is_string nameVal then Some (Return nameVal)
          else do {
            v \<leftarrow> get_strict nameVal ''value'';
            if truthy v then Some (Return (JStr (toStr v))) else Some Fallthrough
          }
        }
      }
      else Some Fallthrough)"

definition title_block :: "jv \<Rightarrow> flow option" where
  "title_block titleVal =
     (if truthy titleVal then
        (if is_string titleVal then Some (Return titleVal)
         else do {
           v \<leftarrow> get_strict titleVal ''value'';
           if truthy v then Some (Return (JStr (toStr v))) else Some Fallthrough
         })
      else Some Fallthrough)"

fun fallback_loop :: "jv \<Rightarrow> string list \<Rightarrow> flow option" where
  "fallback_loop vals [] = Some Fallthrough"
| "fallback_loop vals (key # keys) = do {
     v \<leftarrow> get_strict vals key;
     if is_array v \<and> truthy (idx0 v) then do {
       full_name \<leftarrow> get_strict (idx0 v) ''full_name'';
       if truthy full_name then Some (Return full_name)
       else if is_string (idx0 v) then Some (Return (idx0 v))
       else do {
         w \<leftarrow> get_strict (idx0 v) ''value'';
         if truthy w then Some (Return (JStr (toStr w))) else fallback_loop vals keys
       }
     }
     else fallback_loop vals keys
   }"

definition extractRecordName :: "jv \<Rightarrow> jv option" where
  "extractRecordName record = do {
     let vals = js_or (get_opt record ''values'') (js_or (get_opt record ''attributes'') (JObj []));
     name \<leftarrow> get_strict vals ''name'';
     primary_name \<leftarrow> get_strict vals ''primary_name'';
     r1 \<leftarrow> name_block (js_or (idx0_opt name) (idx0_opt primary_name));
     case r1 of
       Return r \<Rightarrow> Some r
     | Fallthrough \<Rightarrow> do {
         title \<leftarrow> get_strict vals ''title'';
         company_name \<leftarrow> get_strict vals ''company_name'';
         deal_name \<leftarrow> get_strict vals ''deal_name'';
         r2 \<leftarrow> title_block (js_or (idx0_opt title)
                               (js_or (idx0_opt company_name) (idx0_opt deal_name)));
         case r2 of
           Return r \<Rightarrow> Some r
         | Fallthrough \<Rightarrow> do {
             r3 \<leftarrow> fallback_loop vals
                     [''name'', ''title'', ''company'', ''deal_name'', ''primary_name''];
             case r3 of
               Return r \<Rightarrow> Some r
             | Fallthrough \<Rightarrow>
                 Some (js_or (get_opt (get_opt record ''id'') ''record_id'')
                             (js_or (get_opt record ''id'') (JStr ''Unknown'')))
           }
       }
   }"

section \<open>Flattening a values mapping\<close>

definition is_digit :: "char \<Rightarrow> bool" where
  "is_digit c = (48 \<le> (of_char c :: nat) \<and> (of_char c :: nat) \<le> 57)"

text \<open>The test \<^verbatim>\<open>/^\d{4}-\d{2}/\<close>.\<close>

definition date_prefix :: "string \<Rightarrow> bool" where
  "date_prefix s =
     (7 \<le> length s \<and> list_all is_digit (take 4 s) \<and> s ! 4 = CHR ''-'' \<and>
      list_all is_digit (take 2 (drop 5 s)))"

text \<open>
  The body of the loop of \<^verbatim>\<open>flattenValues\<close> for a non-empty array: the value stored
  under the key, from the array's first element. Reading a property of a \<^verbatim>\<open>null\<close>
  first element throws.
\<close>

definition flatten_first :: "jv \<Rightarrow> jv option" where
  "flatten_first first = do {
     full_name \<leftarrow> get_strict first ''full_name'';
     if full_name \<noteq> JUndef then
       Some (js_or full_name (JStr (first_last (getp first ''first_name'') (getp first ''last_name''))))
     else if getp first ''email_address'' \<noteq> JUndef then Some (getp first ''email_address'')
     else if getp first ''phone_number'' \<noteq> JUndef then Some (getp first ''phone_number'')
     else if getp first ''currency_value'' \<noteq> JUndef then
       Some (JObj [(''amount'', getp first ''currency_value''),
                   (''currency'', js_or (getp first ''currency_code'') JNull)])
     else if getp first ''status'' \<noteq> JUndef then
       Some (js_or (get_opt (getp first ''status'') ''title'') (getp first ''status''))
     else if getp first ''target_record_id'' \<noteq> JUndef then
       Some (JObj [(''recordId'', getp first ''target_record_id''),
                   (''objectType'', js_or (getp first ''target_object'') JNull)])
     else if getp first ''option'' \<noteq> JUndef then
       Some (js_or (get_opt (getp first ''option'') ''title'') (getp first ''option''))
     else if getp first ''value'' \<noteq> JUndef \<and>
             (case getp first ''value'' of JStr s \<Rightarrow> date_prefix s | _ \<Rightarrow> False) then
       Some (getp first ''value'')
     else if getp first ''value'' \<noteq> JUndef then Some (getp first ''value'')
     else if (case first of JStr s \<Rightarrow> True | JNum n \<Rightarrow> True | JBool b \<Rightarrow> True | _ \<Rightarrow> False)
       then Some first
     else Some first
   }"

definition flatten_entry :: "jv \<Rightarrow> jv option" where
  "flatten_entry arr =
     (case arr of
        JArr [] \<Rightarrow> Some JNull
      | JArr (first # rest) \<Rightarrow> flatten_first first
      | _ \<Rightarrow> Some JNull)"

fun flatten_loop ::
  "(string \<times> jv) list \<Rightarrow> (string \<times> jv) list \<Rightarrow> (string \<times> jv) list option" where
  "flatten_loop flat [] = Some flat"
| "flatten_loop flat ((key, arr) # rest) = do {
     v \<leftarrow> flatten_entry arr;
     flatten_loop (set_prop key v flat) rest
   }"

text \<open>\<^verbatim>\<open>Object.entries(v)\<close> of an object or an array.\<close>

definition entries_of :: "jv \<Rightarrow> (string \<times> jv) list" where
  "entries_of v =
     (case v of
        JObj kvs \<Rightarrow> kvs
      | JArr xs \<Rightarrow> map (\<lambda>i. (show_nat i, xs ! i)) [0..<length xs]
      | _ \<Rightarrow> [])"

definition flattenValues :: "jv \<Rightarrow> (string \<times> jv) list option" where
  "flattenValues vals =
     (if \<not> truthy vals \<or> \<not> typeof_object vals then Some []
      else flatten_loop [] (entries_of vals))"

section \<open>Array methods\<close>

text \<open>\<^verbatim>\<open>xs.map(f)\<close> with a callback that may throw.\<close>

fun mapM :: "('a \<Rightarrow> 'b option) \<Rightarrow> 'a list \<Rightarrow> 'b list option" where
  "mapM f [] = Some []"
| "mapM f (x # xs) = do { y \<leftarrow> f x; ys \<leftarrow> mapM f xs; Some (y # ys) }"

text \<open>\<^verbatim>\<open>xs.filter(p)\<close> with a predicate that may throw.\<close>

fun filterM :: "('a \<Rightarrow> bool option) \<Rightarrow> 'a list \<Rightarrow> 'a list option" where
  "filterM p [] = Some []"
| "filterM p (x # xs) = do { keep \<leftarrow> p x; ys \<leftarrow> filterM p xs; Some (if keep then x # ys else ys) }"

text \<open>
  \<^verbatim>\<open>xs.sort(cmp)\<close>. The engine's algorithm is not part of the repository; the model
  is the insertion sort that engines run on short arrays: the elements are taken from
  left to right, and each one is compared, as \<open>cmp x y\<close>, with the elements \<open>y\<close>
  already placed and goes before the first of them for which the comparator is negative.
  Elements that the comparator does not order negative keep their input order.
\<close>

fun insert_by :: "('a \<Rightarrow> 'a \<Rightarrow> int option) \<Rightarrow> 'a \<Rightarrow> 'a list \<Rightarrow> 'a list option" where
  "insert_by cmp x [] = Some [x]"
| "insert_by cmp x (y # ys) = do {
     c \<leftarrow> cmp x y;
     if c < 0 then Some (x # y # ys)
     else do { zs \<leftarrow> insert_by cmp x ys; Some (y # zs) }
   }"

fun sort_from :: "('a \<Rightarrow> 'a \<Rightarrow> int option) \<Rightarrow> 'a list \<Rightarrow> 'a list \<Rightarrow> 'a list option" where
  "sort_from cmp placed [] = Some placed"
| "sort_from cmp placed (x # xs) = do { placed' \<leftarrow> insert_by cmp x placed; sort_from cmp placed' xs }"

definition js_sort :: "('a \<Rightarrow> 'a \<Rightarrow> int option) \<Rightarrow> 'a list \<Rightarrow> 'a list option" where
  "js_sort cmp xs = sort_from cmp [] xs"

text \<open>
  The same sort for a comparator that does not throw, given by the relation
  ``the comparator is negative''.
\<close>

fun insert_pure :: "('a \<Rightarrow> 'a \<Rightarrow> bool) \<Rightarrow> 'a \<Rightarrow> 'a list \<Rightarrow> 'a list" where
  "insert_pure neg x [] = [x]"
| "insert_pure neg x (y # ys) = (if neg x y then x # y # ys else y # insert_pure neg x ys)"

fun sort_pure :: "('a \<Rightarrow> 'a \<Rightarrow> bool) \<Rightarrow> 'a list \<Rightarrow> 'a list \<Rightarrow> 'a list" where
  "sort_pure neg placed [] = placed"
| "sort_pure neg placed (x # xs) = sort_pure neg (insert_pure neg x placed) xs"

text \<open>\<^verbatim>\<open>m.get(k)\<close> on a \<^verbatim>\<open>Map<string, string>\<close>: only a string can be a key of it.\<close>

definition map_get :: "(string \<rightharpoonup> string) \<Rightarrow> jv \<Rightarrow> string option" where
  "map_get m k = (case k of JStr s \<Rightarrow> m s | _ \<Rightarrow> None)"

text \<open>
  \<^verbatim>\<open>m.get(k) || `${label} ${k}`\<close>: an empty name is falsy.
\<close>

definition name_or :: "(string \<rightharpoonup> string) \<Rightarrow> string \<Rightarrow> jv \<Rightarrow> string" where
  "name_or m label k =
     (case map_get m k of
        Some n \<Rightarrow> if n \<noteq> [] then n else label @ '' '' @ toStr k
      | None \<Rightarrow> label @ '' '' @ toStr k)"

section \<open>Search results shaping\<close>

record ShapedRecord =
  sr_id :: jv
  sr_objectType :: jv
  sr_name :: jv
  sr_email :: jv
  sr_company :: jv
  sr_flatValues :: "(string \<times> jv) list"

text \<open>
  The filter's predicate,
  \<^verbatim>\<open>!objectType || r.object === objectType || r.parent_object === objectType\<close>.
  An absent \<open>objectType\<close> is \<open>None\<close>.
\<close>

definition type_matches :: "string option \<Rightarrow> jv \<Rightarrow> bool option" where
  "type_matches objectType r =
     (case objectType of
        None \<Rightarrow> Some True
      | Some t \<Rightarrow>
          if t = [] then Some True
          else do {
            obj \<leftarrow> get_strict r ''object'';
            if obj = JStr t then Some True
            else do { parent \<leftarrow> get_strict r ''parent_object''; Some (parent = JStr t) }
          })"

definition shape_record :: "string option \<Rightarrow> jv \<Rightarrow> ShapedRecord option" where
  "shape_record objectType r = do {
     v \<leftarrow> get_strict r ''values'';
     a \<leftarrow> get_strict r ''attributes'';
     let vals = js_or v (js_or a (JObj []));
     let emailArr = js_or (getp vals ''email_addresses'') (js_or (getp vals ''email'') (JArr []));
     let email = js_or (get_opt (idx0 emailArr) ''email_address'')
                   (js_or (get_opt (idx0 emailArr) ''value'') JNull);
     let companyArr = js_or (getp vals ''company'') (js_or (getp vals ''companies'') (JArr []));
     let company = js_or (get_opt (idx0 companyArr) ''full_name'')
                     (js_or (get_opt (idx0 companyArr) ''value'') JNull);
     name \<leftarrow> extractRecordName r;
     flat \<leftarrow> flattenValues vals;
     Some \<lparr> sr_id = js_or (get_opt (getp r ''id'') ''record_id'') (getp r ''id''),
            sr_objectType = js_or (getp r ''object'')
              (js_or (getp r ''parent_object'')
                 (js_or (case objectType of Some t \<Rightarrow> JStr t | None \<Rightarrow> JUndef) JNull)),
            sr_name = name, sr_email = email, sr_company = company, sr_flatValues = flat \<rparr>
   }"

definition shapeSearchResults :: "jv list \<Rightarrow> string option \<Rightarrow> ShapedRecord list option" where
  "shapeSearchResults records objectType = do {
     kept \<leftarrow> filterM (type_matches objectType) records;
     mapM (shape_record objectType) kept
   }"

section \<open>Pipeline summary\<close>





text \<open>
  Key equality of a \<^verbatim>\<open>Map\<close>: primitives are equal by value, objects by identity.
  The objects of parsed JSON are pairwise distinct, so an object key equals no key
  that is already in the map.
\<close>

definition primitive :: "jv \<Rightarrow> bool" where
  "primitive v = (case v of JArr xs \<Rightarrow> False | JObj kvs \<Rightarrow> False | JFun f \<Rightarrow> False | _ \<Rightarrow> True)"















section \<open>Task enrichment\<close>

record EnrichedTask =
  et_id :: jv
  et_content :: jv
  et_isCompleted :: bool
  et_deadline :: jv
  et_assignees :: "string list"
  et_linkedRecords :: "string list"

record EnrichedTasks =
  "open" :: "EnrichedTask list"
  completed :: "EnrichedTask list"

text \<open>\<^verbatim>\<open>(v || []).map(f)\<close>: a truthy \<open>v\<close> that is no array has no \<^verbatim>\<open>map\<close>.\<close>

definition map_or_empty :: "(jv \<Rightarrow> 'b option) \<Rightarrow> jv \<Rightarrow> 'b list option" where
  "map_or_empty f v = (case js_or v (JArr []) of JArr xs \<Rightarrow> mapM f xs | _ \<Rightarrow> None)"

definition resolve_assignee :: "(string \<rightharpoonup> string) \<Rightarrow> jv \<Rightarrow> string option" where
  "resolve_assignee memberMap a = do {
     actor \<leftarrow> get_strict a ''referenced_actor_id'';
     Some (name_or memberMap ''User'' (js_or actor (js_or (getp a ''id'') a)))
   }"

definition resolve_linked :: "(string \<rightharpoonup> string) \<Rightarrow> jv \<Rightarrow> string option" where
  "resolve_linked recordNameMap lr = do {
     rid \<leftarrow> get_strict lr ''record_id'';
     Some (name_or recordNameMap ''Record'' (js_or rid (getp lr ''target_record_id'')))
   }"

definition enrich_task ::
  "(string \<rightharpoonup> string) \<Rightarrow> (string \<rightharpoonup> string) \<Rightarrow> jv \<Rightarrow> EnrichedTask option" where
  "enrich_task memberMap recordNameMap t = do {
     as \<leftarrow> get_strict t ''assignees'';
     assignees \<leftarrow> map_or_empty (resolve_assignee memberMap) as;
     linkedRecords \<leftarrow> map_or_empty (resolve_linked recordNameMap) (getp t ''linked_records'');
     Some \<lparr> et_id = js_or (get_opt (getp t ''id'') ''task_id'') (getp t ''id''),
            et_content = js_or (getp t ''content_plaintext'')
              (js_or (getp t ''content'') (js_or (getp t ''title'') JNull)),
            et_isCompleted = truthy (getp t ''is_completed''),
            et_deadline = js_or (getp t ''deadline'') (js_or (getp t ''due_date'') JNull),
            et_assignees = assignees, et_linkedRecords = linkedRecords \<rparr>
   }"

text \<open>
  \<^verbatim>\<open>a < b\<close>: two strings compare by code units; otherwise both sides are converted
  to numbers (an object first to its string), and a comparison with \<^verbatim>\<open>NaN\<close> is false.
\<close>

definition to_primitive :: "jv \<Rightarrow> jv" where
  "to_primitive v = (if primitive v then v else JStr (toStr v))"

definition js_lt :: "(string \<Rightarrow> jsnum) \<Rightarrow> jv \<Rightarrow> jv \<Rightarrow> bool" where
  "js_lt str2num a b =
     (case (to_primitive a, to_primitive b) of
        (JStr s, JStr t) \<Rightarrow> s < t
      | (pa, pb) \<Rightarrow>
          (case (toNumber str2num pa, toNumber str2num pb) of
             (Fin x, Fin y) \<Rightarrow> x < y
           | _ \<Rightarrow> False))"

text \<open>
  The comparator \<^verbatim>\<open>(a, b) => (a.deadline! < b.deadline! ? -1 : 1)\<close>.
\<close>

definition deadline_cmp :: "(string \<Rightarrow> jsnum) \<Rightarrow> EnrichedTask \<Rightarrow> EnrichedTask \<Rightarrow> int option" where
  "deadline_cmp str2num a b = Some (if js_lt str2num (et_deadline a) (et_deadline b) then - 1 else 1)"

text \<open>
  The deadline rule: the tasks with a deadline, sorted, then the tasks without one.
\<close>

definition sort_by_deadline :: "(string \<Rightarrow> jsnum) \<Rightarrow> EnrichedTask list \<Rightarrow> EnrichedTask list option" where
  "sort_by_deadline str2num enriched = do {
     withDeadline \<leftarrow> js_sort (deadline_cmp str2num) (filter (\<lambda>t. truthy (et_deadline t)) enriched);
     let noDeadline = filter (\<lambda>t. \<not> truthy (et_deadline t)) enriched;
     Some (withDeadline @ noDeadline)
   }"

definition enrichTasks ::
  "(string \<Rightarrow> jsnum) \<Rightarrow> jv list \<Rightarrow> (string \<rightharpoonup> string) \<Rightarrow> (string \<rightharpoonup> string) \<Rightarrow>
   EnrichedTasks option" where
  "enrichTasks str2num tasks memberMap recordNameMap = do {
     enriched \<leftarrow> mapM (enrich_task memberMap recordNameMap) tasks;
     sorted \<leftarrow> sort_by_deadline str2num enriched;
     Some \<lparr> open = filter (\<lambda>t. \<not> et_isCompleted t) sorted,
            completed = filter (\<lambda>t. et_isCompleted t) sorted \<rparr>
   }"

text \<open>
  The other order of the two steps, in the specification's words: partition by the
  completion flag first, then apply the deadline rule to each partition.
\<close>

definition partition_then_sort ::
  "(string \<Rightarrow> jsnum) \<Rightarrow> EnrichedTask list \<Rightarrow> EnrichedTasks option" where
  "partition_then_sort str2num enriched = do {
     op \<leftarrow> sort_by_deadline str2num (filter (\<lambda>t. \<not> et_isCompleted t) enriched);
     co \<leftarrow> sort_by_deadline str2num (filter (\<lambda>t. et_isCompleted t) enriched);
     Some \<lparr> open = op, completed = co \<rparr>
   }"

text \<open>The deadline of a task as a string, for the tasks whose deadline is one.\<close>

definition deadline_string :: "EnrichedTask \<Rightarrow> string" where
  "deadline_string t = (case et_deadline t of JStr d \<Rightarrow> d | _ \<Rightarrow> [])"

section \<open>Activity timeline\<close>









section \<open>Basic facts\<close>

lemma get_strict_truthy: "truthy v \<Longrightarrow> get_strict v k = Some (getp v k)"
  by (auto simp: get_strict_def nullish_def)

lemma getp_truthy_base: "truthy (getp v k) \<Longrightarrow> truthy v"
  by (cases v) auto


lemma map_of_set_prop: "map_of (set_prop k v m) k' = (if k' = k then Some v else map_of m k')"
  by (induction m) auto

section \<open>Record names\<close>




lemma extractRecordName_unfold:
  assumes "vals = js_or (get_opt r ''values'') (js_or (get_opt r ''attributes'') (JObj []))"
  shows "extractRecordName r =
     name_block (js_or (idx0_opt (getp vals ''name'')) (idx0_opt (getp vals ''primary_name''))) \<bind>
     (\<lambda>r1. case r1 of
        Return x \<Rightarrow> Some x
      | Fallthrough \<Rightarrow>
          title_block (js_or (idx0_opt (getp vals ''title''))
                 (js_or (idx0_opt (getp vals ''company_name'')) (idx0_opt (getp vals ''deal_name'')))) \<bind>
          (\<lambda>r2. case r2 of
             Return x \<Rightarrow> Some x
           | Fallthrough \<Rightarrow>
               fallback_loop vals [''name'', ''title'', ''company'', ''deal_name'', ''primary_name''] \<bind>
               (\<lambda>r3. case r3 of
                  Return x \<Rightarrow> Some x
                | Fallthrough \<Rightarrow>
                    Some (js_or (get_opt (get_opt r ''id'') ''record_id'')
                            (js_or (get_opt r ''id'') (JStr ''Unknown''))))))"
proof -
  have t: "truthy vals" unfolding assms by (simp add: js_or_def)
  show ?thesis
    unfolding extractRecordName_def Let_def assms[symmetric]
    by (simp add: get_strict_truthy[OF t] del: fallback_loop.simps)
qed



section \<open>Flattening\<close>

lemma flatten_loop_lookup:
  "flatten_loop acc kvs = Some out \<Longrightarrow> distinct (map fst kvs) \<Longrightarrow>
   map_of out k = (case map_of kvs k of None \<Rightarrow> map_of acc k | Some arr \<Rightarrow> flatten_entry arr)"
proof (induction kvs arbitrary: acc)
  case Nil
  then show ?case by simp
next
  case (Cons p rest)
  obtain key arr where p: "p = (key, arr)" by (cases p)
  from Cons.prems(1) obtain v where v: "flatten_entry arr = Some v"
    and loop: "flatten_loop (set_prop key v acc) rest = Some out"
    by (auto simp: p split: Option.bind_splits)
  from Cons.prems(2) have d: "distinct (map fst rest)" and fresh: "map_of rest key = None"
    by (auto simp: p map_of_eq_None_iff)
  from Cons.IH[OF loop d]
  show ?case using v fresh by (auto simp: p map_of_set_prop split: option.splits)
qed

lemma flatten_loop_total:
  "\<forall>p \<in> set kvs. \<exists>v. flatten_entry (snd p) = Some v \<Longrightarrow>
   \<exists>out. flatten_loop acc kvs = Some out"
proof (induction kvs arbitrary: acc)
  case Nil
  then show ?case by simp
next
  case (Cons p rest)
  obtain key arr where p: "p = (key, arr)" by (cases p)
  from Cons.prems obtain v where v: "flatten_entry arr = Some v"
    by (auto simp: p)
  from Cons.prems have "\<forall>p \<in> set rest. \<exists>v. flatten_entry (snd p) = Some v"
    by simp
  from Cons.IH[OF this, of "set_prop key v acc"]
  show ?case by (simp add: p v)
qed

lemma flatten_entry_empty:
  "arr = JArr [] \<or> \<not> is_array arr \<Longrightarrow> flatten_entry arr = Some JNull"
  by (auto simp: flatten_entry_def is_array_def split: jv.splits list.splits)

lemma flatten_first_defined: "\<not> nullish first \<Longrightarrow> \<exists>v. flatten_first first = Some v"
  by (simp add: flatten_first_def get_strict_def)

lemma flatten_entry_defined:
  "arr = JArr [] \<or> \<not> is_array arr \<or> \<not> nullish (idx0 arr) \<Longrightarrow>
   \<exists>v. flatten_entry arr = Some v"
  by (auto simp: flatten_entry_def is_array_def flatten_first_defined split: jv.splits list.splits)

lemma flatten_entry_full_name:
  assumes "truthy (getp a ''full_name'')"
  shows "flatten_entry (JArr (a # rest)) = Some (getp a ''full_name'')"
proof -
  have a: "truthy a" using assms by (rule getp_truthy_base)
  have d: "getp a ''full_name'' \<noteq> JUndef" using assms by auto
  show ?thesis
    by (simp add: flatten_entry_def flatten_first_def get_strict_truthy[OF a] d js_or_def assms)
qed


lemma flattenValues_obj: "flattenValues (JObj kvs) = flatten_loop [] kvs"
  by (simp add: flattenValues_def typeof_object_def entries_of_def)

text \<open>
  C9. \<^verbatim>\<open>flattenValues\<close> returns the empty mapping for \<^verbatim>\<open>null\<close>, \<^verbatim>\<open>undefined\<close>, any
  value that is no object, and the empty mapping. In the flattened mapping of an object,
  a key whose value is an empty array or no array at all is present and maps to
  \<^verbatim>\<open>null\<close>, while a key that the input does not have is absent. The flattening
  returns whenever no array starts with \<^verbatim>\<open>null\<close> or \<^verbatim>\<open>undefined\<close>.
\<close>

theorem flattenValues_degrades:
  "(\<not> truthy v \<or> \<not> typeof_object v \<longrightarrow> flattenValues v = Some []) \<and>
   flattenValues JNull = Some [] \<and>
   flattenValues (JObj []) = Some [] \<and>
   (distinct (map fst kvs) \<and> flattenValues (JObj kvs) = Some flat \<and>
    map_of kvs k = Some arr \<and> (arr = JArr [] \<or> \<not> is_array arr)
      \<longrightarrow> map_of flat k = Some JNull) \<and>
   (distinct (map fst kvs) \<and> flattenValues (JObj kvs) = Some flat \<and> map_of kvs k' = None
      \<longrightarrow> map_of flat k' = None) \<and>
   ((\<forall>p \<in> set kvs. snd p = JArr [] \<or> \<not> is_array (snd p) \<or> \<not> nullish (idx0 (snd p)))
      \<longrightarrow> (\<exists>out. flattenValues (JObj kvs) = Some out))"
proof (intro conjI impI)
  show "flattenValues v = Some []" if "\<not> truthy v \<or> \<not> typeof_object v"
    using that by (auto simp: flattenValues_def)
  show "flattenValues JNull = Some []"
    by (simp add: flattenValues_def)
  show "flattenValues (JObj []) = Some []"
    by (simp add: flattenValues_obj)
  show "map_of flat k = Some JNull"
    if "distinct (map fst kvs) \<and> flattenValues (JObj kvs) = Some flat \<and>
        map_of kvs k = Some arr \<and> (arr = JArr [] \<or> \<not> is_array arr)"
    using that flatten_loop_lookup[of "[]" kvs flat k] flatten_entry_empty[of arr]
    by (simp add: flattenValues_obj)
  show "map_of flat k' = None"
    if "distinct (map fst kvs) \<and> flattenValues (JObj kvs) = Some flat \<and> map_of kvs k' = None"
    using that flatten_loop_lookup[of "[]" kvs flat k']
    by (simp add: flattenValues_obj)
  show "\<exists>out. flattenValues (JObj kvs) = Some out"
    if "\<forall>p \<in> set kvs. snd p = JArr [] \<or> \<not> is_array (snd p) \<or> \<not> nullish (idx0 (snd p))"
    unfolding flattenValues_obj
    by (rule flatten_loop_total) (use that flatten_entry_defined in blast)
qed

theorem flattenValues_degrades_witness:
  "flattenValues (JStr ''abc'') = Some [] \<and>
   flattenValues (JObj [(''empty'', JArr []), (''missing'', JNull), (''tags'', JArr [JStr ''important''])]) =
     Some [(''empty'', JNull), (''missing'', JNull), (''tags'', JStr ''important'')] \<and>
   map_of [(''empty'', JNull), (''missing'', JNull), (''tags'', JStr ''important'')] ''empty'' = Some JNull \<and>
   map_of [(''empty'', JNull), (''missing'', JNull), (''tags'', JStr ''important'')] ''other'' = None"
  using flattenValues_degrades[of "JStr ''abc''"
      "[(''empty'', JArr []), (''missing'', JNull), (''tags'', JArr [JStr ''important''])]"
      "[(''empty'', JNull), (''missing'', JNull), (''tags'', JStr ''important'')]"
      "''empty''" "JArr []" "''other''"]
  by (simp add: typeof_object_def flattenValues_obj flatten_entry_def flatten_first_def
      get_strict_def nullish_def)

section \<open>Personal names\<close>

lemma extractRecordName_name_block:
  assumes vals: "get_opt rcd ''values'' = JObj vs"
    and name: "map_of vs ''name'' = Some (JArr (a # rest))"
    and blk: "name_block a = Some (Return x)"
    and a: "truthy a"
  shows "extractRecordName rcd = Some x"
proof -
  have v: "JObj vs = js_or (get_opt rcd ''values'') (js_or (get_opt rcd ''attributes'') (JObj []))"
    by (simp add: vals js_or_def)
  have n: "js_or (idx0_opt (getp (JObj vs) ''name'')) (idx0_opt (getp (JObj vs) ''primary_name'')) = a"
    by (simp add: name idx0_opt_def nullish_def js_or_def a)
  show ?thesis
    unfolding extractRecordName_unfold[OF v] n blk by simp
qed

lemma name_block_full_name:
  assumes "truthy (getp a ''full_name'')"
  shows "name_block a = Some (Return (getp a ''full_name''))"
proof -
  have a: "truthy a" using assms by (rule getp_truthy_base)
  show ?thesis by (simp add: name_block_def a get_strict_truthy[OF a] assms)
qed



text \<open>
  C2, as amended. For an attribute value whose \<^verbatim>\<open>full_name\<close> is truthy (a non-empty
  string), extraction returns that field's value exactly, whatever \<^verbatim>\<open>first_name\<close> and
  \<^verbatim>\<open>last_name\<close> hold: \<^verbatim>\<open>flattenValues\<close> stores it under the attribute's key, and
  \<^verbatim>\<open>extractRecordName\<close> returns it when the value is the first element of the rcd's
  \<^verbatim>\<open>name\<close>.
\<close>

theorem full_name_wins:
  assumes "truthy (getp a ''full_name'')"
  shows "flatten_entry (JArr (a # rest)) = Some (getp a ''full_name'') \<and>
    (distinct (map fst kvs) \<and> map_of kvs k = Some (JArr (a # rest)) \<and>
     flattenValues (JObj kvs) = Some flat \<longrightarrow> map_of flat k = Some (getp a ''full_name'')) \<and>
    (get_opt rcd ''values'' = JObj vs \<and> map_of vs ''name'' = Some (JArr (a # rest))
       \<longrightarrow> extractRecordName rcd = Some (getp a ''full_name''))"
proof (intro conjI impI)
  show e: "flatten_entry (JArr (a # rest)) = Some (getp a ''full_name'')"
    using assms by (rule flatten_entry_full_name)
  show "map_of flat k = Some (getp a ''full_name'')"
    if "distinct (map fst kvs) \<and> map_of kvs k = Some (JArr (a # rest)) \<and>
        flattenValues (JObj kvs) = Some flat"
    using that flatten_loop_lookup[of "[]" kvs flat k] e by (simp add: flattenValues_obj)
  show "extractRecordName rcd = Some (getp a ''full_name'')"
    if "get_opt rcd ''values'' = JObj vs \<and> map_of vs ''name'' = Some (JArr (a # rest))"
    using that name_block_full_name[OF assms] getp_truthy_base[OF assms]
    by (auto intro: extractRecordName_name_block)
qed

theorem full_name_wins_witness:
  "flatten_entry (JArr [JObj [(''full_name'', JStr ''Alice Smith''), (''first_name'', JStr ''Alice''),
                              (''last_name'', JStr ''Smith'')]]) = Some (JStr ''Alice Smith'') \<and>
   flattenValues (JObj [(''name'', JArr [JObj [(''full_name'', JStr ''Alice Smith''),
       (''first_name'', JStr ''Alice''), (''last_name'', JStr ''Smith'')]])]) =
     Some [(''name'', JStr ''Alice Smith'')] \<and>
   extractRecordName (JObj [(''values'', JObj [(''name'', JArr [JObj [(''full_name'', JStr ''Alice Smith''),
       (''first_name'', JStr ''Alice''), (''last_name'', JStr ''Smith'')]])])]) =
     Some (JStr ''Alice Smith'')"
  using full_name_wins[of "JObj [(''full_name'', JStr ''Alice Smith''), (''first_name'', JStr ''Alice''),
                              (''last_name'', JStr ''Smith'')]" "[]"
      "[(''name'', JArr [JObj [(''full_name'', JStr ''Alice Smith''),
       (''first_name'', JStr ''Alice''), (''last_name'', JStr ''Smith'')]])]" "''name''"
      "[(''name'', JStr ''Alice Smith'')]"
      "JObj [(''values'', JObj [(''name'', JArr [JObj [(''full_name'', JStr ''Alice Smith''),
       (''first_name'', JStr ''Alice''), (''last_name'', JStr ''Smith'')]])])]"
      "[(''name'', JArr [JObj [(''full_name'', JStr ''Alice Smith''),
       (''first_name'', JStr ''Alice''), (''last_name'', JStr ''Smith'')]])]"]
  by (simp add: flattenValues_obj get_opt_def nullish_def)

text \<open>
  C2 as stated fails: an attribute value may have a \<^verbatim>\<open>full_name\<close> field that is the
  empty string, and then \<^verbatim>\<open>flattenValues\<close> composes the first and last name instead of
  returning the field's value.
\<close>

theorem full_name_empty_counterexample:
  "getp (JObj [(''full_name'', JStr ''''), (''first_name'', JStr ''Bob''), (''last_name'', JStr ''J'')])
     ''full_name'' = JStr '''' \<and>
   flattenValues (JObj [(''name'', JArr [JObj [(''full_name'', JStr ''''), (''first_name'', JStr ''Bob''),
                                             (''last_name'', JStr ''J'')]])]) =
     Some [(''name'', JStr ''Bob J'')]"
  by (simp add: flattenValues_obj flatten_entry_def flatten_first_def get_strict_def nullish_def
      js_or_def first_last_def trim_def is_ws_def)




section \<open>Array methods\<close>

lemma mapM_Some_D: "mapM f xs = Some ys \<Longrightarrow> list_all2 (\<lambda>x y. f x = Some y) xs ys"
  by (induction xs arbitrary: ys) (auto split: Option.bind_splits)

lemma mapM_Some_I: "list_all2 (\<lambda>x y. f x = Some y) xs ys \<Longrightarrow> mapM f xs = Some ys"
  by (induction rule: list_all2_induct) auto

lemma mapM_Some_iff: "mapM f xs = Some ys \<longleftrightarrow> list_all2 (\<lambda>x y. f x = Some y) xs ys"
  by (blast intro: mapM_Some_I dest: mapM_Some_D)

lemma mapM_total: "\<forall>x \<in> set xs. \<exists>y. f x = Some y \<Longrightarrow> \<exists>ys. mapM f xs = Some ys"
  by (induction xs) auto

lemma mapM_length: "mapM f xs = Some ys \<Longrightarrow> length ys = length xs"
  by (simp add: mapM_Some_iff list_all2_lengthD)

lemma filterM_pure: "\<forall>x \<in> set xs. p x = Some (q x) \<Longrightarrow> filterM p xs = Some (filter q xs)"
  by (induction xs) auto

lemma filterM_defined: "filterM p xs = Some ys \<Longrightarrow> \<forall>x \<in> set xs. \<exists>b. p x = Some b"
  by (induction xs arbitrary: ys) (auto split: Option.bind_splits)

section \<open>Search results\<close>

lemma type_matches_filter:
  "t \<noteq> [] \<Longrightarrow> \<not> nullish r \<Longrightarrow>
   type_matches (Some t) r = Some (getp r ''object'' = JStr t \<or> getp r ''parent_object'' = JStr t)"
  by (simp add: type_matches_def get_strict_def)

lemma type_matches_nullish:
  "t \<noteq> [] \<Longrightarrow> type_matches (Some t) r = Some b \<Longrightarrow> \<not> nullish r"
  by (auto simp: type_matches_def get_strict_def split: if_splits)

lemma type_matches_no_filter:
  "type_matches None r = Some True" "type_matches (Some []) r = Some True"
  by (simp_all add: type_matches_def)

text \<open>
  C8, as amended. With a non-empty type filter, \<^verbatim>\<open>shapeSearchResults\<close> returns the
  shaped projections of exactly the records whose \<^verbatim>\<open>object\<close> or \<^verbatim>\<open>parent_object\<close> equals the
  filter, in their input order. With no filter, and with the empty string as filter, it
  returns the shaped projection of every record, in input order. It returns whenever
  every record can be shaped.
\<close>

theorem shapeSearchResults_filter:
  "(t \<noteq> [] \<and> shapeSearchResults records (Some t) = Some out \<longrightarrow>
      list_all2 (\<lambda>r s. shape_record (Some t) r = Some s)
        (filter (\<lambda>r. getp r ''object'' = JStr t \<or> getp r ''parent_object'' = JStr t) records) out) \<and>
   (shapeSearchResults records None = Some out' \<longrightarrow>
      list_all2 (\<lambda>r s. shape_record None r = Some s) records out') \<and>
   (shapeSearchResults records (Some []) = Some out'' \<longrightarrow>
      list_all2 (\<lambda>r s. shape_record (Some []) r = Some s) records out'') \<and>
   ((\<forall>r \<in> set records. \<exists>s. shape_record objectType r = Some s)
      \<longrightarrow> (\<exists>res. shapeSearchResults records objectType = Some res))"
proof (intro conjI impI)
  assume h: "t \<noteq> [] \<and> shapeSearchResults records (Some t) = Some out"
  then obtain kept where k: "filterM (type_matches (Some t)) records = Some kept"
    and m: "mapM (shape_record (Some t)) kept = Some out"
    by (auto simp: shapeSearchResults_def split: Option.bind_splits)
  from filterM_defined[OF k] h have "\<forall>r \<in> set records. \<not> nullish r"
    by (blast dest: type_matches_nullish)
  with h have "filterM (type_matches (Some t)) records =
      Some (filter (\<lambda>r. getp r ''object'' = JStr t \<or> getp r ''parent_object'' = JStr t) records)"
    by (intro filterM_pure) (simp add: type_matches_filter)
  with k m show "list_all2 (\<lambda>r s. shape_record (Some t) r = Some s)
        (filter (\<lambda>r. getp r ''object'' = JStr t \<or> getp r ''parent_object'' = JStr t) records) out"
    by (simp add: mapM_Some_iff)
next
  have all: "filterM (type_matches ot) records = Some records" if "\<forall>r. type_matches ot r = Some True" for ot
    using filterM_pure[of records "type_matches ot" "\<lambda>r. True"] that by simp
  show "list_all2 (\<lambda>r s. shape_record None r = Some s) records out'"
    if "shapeSearchResults records None = Some out'"
    using that all[of None] by (simp add: shapeSearchResults_def type_matches_no_filter mapM_Some_iff)
  show "list_all2 (\<lambda>r s. shape_record (Some []) r = Some s) records out''"
    if "shapeSearchResults records (Some []) = Some out''"
    using that all[of "Some []"] by (simp add: shapeSearchResults_def type_matches_no_filter mapM_Some_iff)
next
  assume h: "\<forall>r \<in> set records. \<exists>s. shape_record objectType r = Some s"
  then have nn: "\<forall>r \<in> set records. \<not> nullish r"
    by (auto simp: shape_record_def get_strict_def split: if_splits)
  have "\<forall>r \<in> set records. \<exists>b. type_matches objectType r = Some b"
    using nn by (auto simp: type_matches_def get_strict_def split: option.splits)
  then obtain q where q: "\<forall>r \<in> set records. type_matches objectType r = Some (q r)"
    by metis
  have k: "filterM (type_matches objectType) records = Some (filter q records)"
    using q by (rule filterM_pure)
  have "\<exists>res. mapM (shape_record objectType) (filter q records) = Some res"
    using h by (intro mapM_total) simp
  then show "\<exists>res. shapeSearchResults records objectType = Some res"
    by (simp add: shapeSearchResults_def k)
qed

theorem shapeSearchResults_filter_witness:
  "shapeSearchResults
     [JObj [(''id'', JStr ''r1''), (''object'', JStr ''people'')],
      JObj [(''id'', JStr ''r2''), (''object'', JStr ''companies'')],
      JObj [(''id'', JStr ''r3''), (''parent_object'', JStr ''people'')]] (Some ''people'') =
     Some [\<lparr>sr_id = JStr ''r1'', sr_objectType = JStr ''people'', sr_name = JStr ''r1'',
             sr_email = JNull, sr_company = JNull, sr_flatValues = []\<rparr>,
           \<lparr>sr_id = JStr ''r3'', sr_objectType = JStr ''people'', sr_name = JStr ''r3'',
             sr_email = JNull, sr_company = JNull, sr_flatValues = []\<rparr>] \<and>
   list_all2 (\<lambda>r s. shape_record (Some ''people'') r = Some s)
     [JObj [(''id'', JStr ''r1''), (''object'', JStr ''people'')],
      JObj [(''id'', JStr ''r3''), (''parent_object'', JStr ''people'')]]
     [\<lparr>sr_id = JStr ''r1'', sr_objectType = JStr ''people'', sr_name = JStr ''r1'',
             sr_email = JNull, sr_company = JNull, sr_flatValues = []\<rparr>,
      \<lparr>sr_id = JStr ''r3'', sr_objectType = JStr ''people'', sr_name = JStr ''r3'',
             sr_email = JNull, sr_company = JNull, sr_flatValues = []\<rparr>] \<and>
   list_all2 (\<lambda>r s. shape_record None r = Some s)
     [JObj [(''id'', JStr ''r1''), (''object'', JStr ''people'')],
      JObj [(''id'', JStr ''r2''), (''object'', JStr ''companies'')],
      JObj [(''id'', JStr ''r3''), (''parent_object'', JStr ''people'')]]
     [\<lparr>sr_id = JStr ''r1'', sr_objectType = JStr ''people'', sr_name = JStr ''r1'',
             sr_email = JNull, sr_company = JNull, sr_flatValues = []\<rparr>,
      \<lparr>sr_id = JStr ''r2'', sr_objectType = JStr ''companies'', sr_name = JStr ''r2'',
             sr_email = JNull, sr_company = JNull, sr_flatValues = []\<rparr>,
      \<lparr>sr_id = JStr ''r3'', sr_objectType = JStr ''people'', sr_name = JStr ''r3'',
             sr_email = JNull, sr_company = JNull, sr_flatValues = []\<rparr>]"
proof -
  let ?r1 = "JObj [(''id'', JStr ''r1''), (''object'', JStr ''people'')]"
  let ?r2 = "JObj [(''id'', JStr ''r2''), (''object'', JStr ''companies'')]"
  let ?r3 = "JObj [(''id'', JStr ''r3''), (''parent_object'', JStr ''people'')]"
  let ?s1 = "\<lparr>sr_id = JStr ''r1'', sr_objectType = JStr ''people'', sr_name = JStr ''r1'',
             sr_email = JNull, sr_company = JNull, sr_flatValues = []\<rparr>"
  let ?s2 = "\<lparr>sr_id = JStr ''r2'', sr_objectType = JStr ''companies'', sr_name = JStr ''r2'',
             sr_email = JNull, sr_company = JNull, sr_flatValues = []\<rparr>"
  let ?s3 = "\<lparr>sr_id = JStr ''r3'', sr_objectType = JStr ''people'', sr_name = JStr ''r3'',
             sr_email = JNull, sr_company = JNull, sr_flatValues = []\<rparr>"
  have a: "shapeSearchResults [?r1, ?r2, ?r3] (Some ''people'') = Some [?s1, ?s3]"
    by code_simp
  have b: "shapeSearchResults [?r1, ?r2, ?r3] None = Some [?s1, ?s2, ?s3]"
    by code_simp
  have c: "shapeSearchResults [?r1, ?r2, ?r3] (Some []) = Some [?s1, ?s2, ?s3]"
    by code_simp
  from a b c shapeSearchResults_filter[of "''people''" "[?r1, ?r2, ?r3]" "[?s1, ?s3]"
      "[?s1, ?s2, ?s3]" "[?s1, ?s2, ?s3]" "Some ''people''"]
  show ?thesis by simp
qed

text \<open>
  C8 as stated fails for the empty string as filter: it counts as no filter, and a record
  of another type is returned.
\<close>

theorem shapeSearchResults_empty_filter_counterexample:
  "getp (JObj [(''id'', JStr ''r2''), (''object'', JStr ''companies'')]) ''object'' \<noteq> JStr '''' \<and>
   getp (JObj [(''id'', JStr ''r2''), (''object'', JStr ''companies'')]) ''parent_object'' \<noteq> JStr '''' \<and>
   shapeSearchResults [JObj [(''id'', JStr ''r2''), (''object'', JStr ''companies'')]] (Some '''') =
     Some [\<lparr>sr_id = JStr ''r2'', sr_objectType = JStr ''companies'', sr_name = JStr ''r2'',
             sr_email = JNull, sr_company = JNull, sr_flatValues = []\<rparr>]"
  by code_simp

section \<open>Stage map\<close>





















section \<open>Entry values\<close>




section \<open>Sorting\<close>

lemma set_insert_pure: "set (insert_pure neg x ys) = insert x (set ys)"
  by (induction ys) auto

lemma mset_insert_pure: "mset (insert_pure neg x ys) = add_mset x (mset ys)"
  by (induction ys) auto

lemma mset_sort_pure: "mset (sort_pure neg placed xs) = mset placed + mset xs"
  by (induction xs arbitrary: placed) (auto simp: mset_insert_pure)

lemma insert_by_pure:
  "\<forall>y \<in> set ys. cmp x y = Some (c x y) \<Longrightarrow>
   insert_by cmp x ys = Some (insert_pure (\<lambda>a b. c a b < 0) x ys)"
  by (induction ys) auto

lemma sort_from_pure:
  "\<forall>a \<in> set placed \<union> set xs. \<forall>b \<in> set placed \<union> set xs. cmp a b = Some (c a b) \<Longrightarrow>
   sort_from cmp placed xs = Some (sort_pure (\<lambda>a b. c a b < 0) placed xs)"
proof (induction xs arbitrary: placed)
  case Nil
  then show ?case by simp
next
  case (Cons x xs)
  have "insert_by cmp x placed = Some (insert_pure (\<lambda>a b. c a b < 0) x placed)"
    using Cons.prems by (intro insert_by_pure) simp
  moreover have "sort_from cmp (insert_pure (\<lambda>a b. c a b < 0) x placed) xs =
      Some (sort_pure (\<lambda>a b. c a b < 0) (insert_pure (\<lambda>a b. c a b < 0) x placed) xs)"
    using Cons.prems by (intro Cons.IH) (simp add: set_insert_pure)
  ultimately show ?case by simp
qed

lemma js_sort_pure:
  "\<forall>a \<in> set xs. \<forall>b \<in> set xs. cmp a b = Some (c a b) \<Longrightarrow>
   js_sort cmp xs = Some (sort_pure (\<lambda>a b. c a b < 0) [] xs)"
  unfolding js_sort_def by (rule sort_from_pure) simp

lemma insert_pure_cong:
  "\<forall>y \<in> set ys. neg x y = neg' x y \<Longrightarrow> insert_pure neg x ys = insert_pure neg' x ys"
  by (induction ys) auto

lemma sort_pure_cong:
  "\<forall>a \<in> set placed \<union> set xs. \<forall>b \<in> set placed \<union> set xs. neg a b = neg' a b \<Longrightarrow>
   sort_pure neg placed xs = sort_pure neg' placed xs"
proof (induction xs arbitrary: placed)
  case Nil
  then show ?case by simp
next
  case (Cons x xs)
  have 1: "insert_pure neg x placed = insert_pure neg' x placed"
    using Cons.prems by (intro insert_pure_cong) simp
  have "sort_pure neg (insert_pure neg' x placed) xs = sort_pure neg' (insert_pure neg' x placed) xs"
    using Cons.prems by (intro Cons.IH) (simp add: set_insert_pure)
  with 1 show ?case by simp
qed

text \<open>Sortedness, for a relation whose complement, read backwards, is a transitive order.\<close>

lemma sorted_insert_pure:
  assumes asym: "\<And>a b. neg a b \<Longrightarrow> \<not> neg b a"
    and trans: "\<And>a b c. \<not> neg b a \<Longrightarrow> \<not> neg c b \<Longrightarrow> \<not> neg c a"
  shows "sorted_wrt (\<lambda>a b. \<not> neg b a) ys \<Longrightarrow> sorted_wrt (\<lambda>a b. \<not> neg b a) (insert_pure neg x ys)"
proof (induction ys)
  case Nil
  then show ?case by simp
next
  case (Cons y ys)
  show ?case
  proof (cases "neg x y")
    case True
    then have xy: "\<not> neg y x" by (rule asym)
    have "\<not> neg z x" if "z \<in> set ys" for z
      using Cons.prems that trans[OF xy, of z] by auto
    with xy Cons.prems True show ?thesis by auto
  next
    case False
    with Cons show ?thesis by (auto simp: set_insert_pure)
  qed
qed


text \<open>With a key in a linear order, the sort is the stable sort by that key.\<close>

lemma sorted_wrt_key: "sorted_wrt (\<lambda>a b. \<not> f b < f a) ys = sorted (map f ys)"
  for f :: "'a \<Rightarrow> 'k::linorder"
  by (induction ys) (auto simp: not_less)

lemma filter_insert_pure_key:
  fixes f :: "'a \<Rightarrow> 'k::linorder"
  shows "sorted (map f ys) \<Longrightarrow>
   filter (\<lambda>y. f y = k) (insert_pure (\<lambda>a b. f a < f b) x ys) =
   filter (\<lambda>y. f y = k) ys @ (if f x = k then [x] else [])"
proof (induction ys)
  case Nil
  then show ?case by simp
next
  case (Cons y ys)
  show ?case
  proof (cases "f x < f y")
    case True
    have "filter (\<lambda>z. f z = f x) (y # ys) = []"
      using True Cons.prems by (auto simp: filter_empty_conv)
    with True show ?thesis by auto
  next
    case False
    with Cons show ?thesis by auto
  qed
qed

lemma sorted_insert_pure_key:
  fixes f :: "'a \<Rightarrow> 'k::linorder"
  assumes "sorted (map f ys)"
  shows "sorted (map f (insert_pure (\<lambda>a b. f a < f b) x ys))"
proof -
  have "sorted_wrt (\<lambda>a b. \<not> f b < f a) (insert_pure (\<lambda>a b. f a < f b) x ys)"
  proof (rule sorted_insert_pure)
    show "\<not> f b < f a" if "f a < f b" for a b using that by simp
    show "\<not> f c < f a" if "\<not> f b < f a" "\<not> f c < f b" for a b c using that by simp
    show "sorted_wrt (\<lambda>a b. \<not> f b < f a) ys" using assms by (simp only: sorted_wrt_key)
  qed
  then show ?thesis by (simp only: sorted_wrt_key)
qed

lemma sort_pure_key_props:
  fixes f :: "'a \<Rightarrow> 'k::linorder"
  assumes "sorted (map f placed)"
  shows "sorted (map f (sort_pure (\<lambda>a b. f a < f b) placed xs)) \<and>
         filter (\<lambda>y. f y = k) (sort_pure (\<lambda>a b. f a < f b) placed xs) =
         filter (\<lambda>y. f y = k) placed @ filter (\<lambda>y. f y = k) xs"
  using assms
proof (induction xs arbitrary: placed)
  case Nil
  then show ?case by simp
next
  case (Cons x xs)
  have s: "sorted (map f (insert_pure (\<lambda>a b. f a < f b) x placed))"
    using Cons.prems by (rule sorted_insert_pure_key)
  have i: "filter (\<lambda>y. f y = k) (insert_pure (\<lambda>a b. f a < f b) x placed) =
      filter (\<lambda>y. f y = k) placed @ (if f x = k then [x] else [])"
    using Cons.prems by (rule filter_insert_pure_key)
  from Cons.IH[OF s] show ?case by (simp add: i)
qed

lemma sort_pure_is_sort_key:
  fixes f :: "'a \<Rightarrow> 'k::linorder"
  shows "sort_pure (\<lambda>a b. f a < f b) [] xs = sort_key f xs"
proof (rule sym, rule properties_for_sort_key)
  show "mset (sort_pure (\<lambda>a b. f a < f b) [] xs) = mset xs"
    by (simp add: mset_sort_pure)
  show "filter (\<lambda>x. f k = f x) (sort_pure (\<lambda>a b. f a < f b) [] xs) = filter (\<lambda>x. f k = f x) xs"
    for k
    using sort_pure_key_props[of f "[]" xs "f k"] by (simp add: eq_commute)
  show "sorted (map f (sort_pure (\<lambda>a b. f a < f b) [] xs))"
    using sort_pure_key_props[of f "[]" xs] by simp
qed

section \<open>Tasks\<close>

lemma js_lt_strings: "js_lt str2num (JStr s) (JStr t) = (s < t)"
  by (simp add: js_lt_def to_primitive_def primitive_def)

lemma deadline_string_lt:
  "is_string (et_deadline a) \<Longrightarrow> is_string (et_deadline b) \<Longrightarrow>
   js_lt str2num (et_deadline a) (et_deadline b) = (deadline_string a < deadline_string b)"
  by (auto simp: is_string_def deadline_string_def js_lt_strings split: jv.splits)

lemma js_sort_deadline_pure:
  "js_sort (deadline_cmp str2num) xs =
   Some (sort_pure (\<lambda>a b. js_lt str2num (et_deadline a) (et_deadline b)) [] xs)"
proof -
  have "js_sort (deadline_cmp str2num) xs =
     Some (sort_pure (\<lambda>a b. (if js_lt str2num (et_deadline a) (et_deadline b) then - 1 else (1::int)) < 0) [] xs)"
    by (rule js_sort_pure) (simp add: deadline_cmp_def)
  moreover have "(\<lambda>a b. (if js_lt str2num (et_deadline a) (et_deadline b) then - 1 else (1::int)) < 0) =
      (\<lambda>a b. js_lt str2num (et_deadline a) (et_deadline b))"
    by (intro ext) simp
  ultimately show ?thesis by simp
qed

lemma sort_by_deadline_total:
  "\<exists>ys. sort_by_deadline str2num xs = Some ys \<and> mset ys = mset xs"
proof -
  let ?w = "sort_pure (\<lambda>a b. js_lt str2num (et_deadline a) (et_deadline b)) []
              (filter (\<lambda>t. truthy (et_deadline t)) xs)"
  have "sort_by_deadline str2num xs = Some (?w @ filter (\<lambda>t. \<not> truthy (et_deadline t)) xs)"
    by (simp add: sort_by_deadline_def js_sort_deadline_pure)
  moreover have "mset (?w @ filter (\<lambda>t. \<not> truthy (et_deadline t)) xs) = mset xs"
    by (simp add: mset_sort_pure)
  ultimately show ?thesis by blast
qed

lemma sort_by_deadline_strings:
  assumes "\<forall>t \<in> set xs. truthy (et_deadline t) \<longrightarrow> is_string (et_deadline t)"
  shows "sort_by_deadline str2num xs =
     Some (sort_key deadline_string (filter (\<lambda>t. truthy (et_deadline t)) xs) @
           filter (\<lambda>t. \<not> truthy (et_deadline t)) xs)"
proof -
  let ?w = "filter (\<lambda>t. truthy (et_deadline t)) xs"
  have "sort_pure (\<lambda>a b. js_lt str2num (et_deadline a) (et_deadline b)) [] ?w =
        sort_pure (\<lambda>a b. deadline_string a < deadline_string b) [] ?w"
    using assms by (intro sort_pure_cong) (simp add: deadline_string_lt)
  also have "\<dots> = sort_key deadline_string ?w"
    by (rule sort_pure_is_sort_key)
  finally show ?thesis
    by (simp add: sort_by_deadline_def js_sort_deadline_pure)
qed

lemma filter_deadline_rule:
  "filter P (sort_key deadline_string (filter Q xs) @ filter R xs) =
   sort_key deadline_string (filter Q (filter P xs)) @ filter R (filter P xs)"
proof -
  have "filter P (filter Q xs) = filter Q (filter P xs)" for Q
    by (auto intro: filter_cong)
  then show ?thesis by (simp add: filter_sort)
qed

lemma enrichTasks_eq:
  assumes en: "mapM (enrich_task memberMap recordNameMap) tasks = Some enriched"
    and str: "\<forall>t \<in> set enriched. truthy (et_deadline t) \<longrightarrow> is_string (et_deadline t)"
  shows "enrichTasks str2num tasks memberMap recordNameMap =
     Some \<lparr> open = sort_key deadline_string
                 (filter (\<lambda>t. truthy (et_deadline t)) (filter (\<lambda>t. \<not> et_isCompleted t) enriched)) @
               filter (\<lambda>t. \<not> truthy (et_deadline t)) (filter (\<lambda>t. \<not> et_isCompleted t) enriched),
             completed = sort_key deadline_string
                 (filter (\<lambda>t. truthy (et_deadline t)) (filter (\<lambda>t. et_isCompleted t) enriched)) @
               filter (\<lambda>t. \<not> truthy (et_deadline t)) (filter (\<lambda>t. et_isCompleted t) enriched) \<rparr>"
  by (simp add: enrichTasks_def en sort_by_deadline_strings[OF str] filter_deadline_rule
      del: filter_filter filter_append)

lemma partition_then_sort_eq:
  assumes str: "\<forall>t \<in> set enriched. truthy (et_deadline t) \<longrightarrow> is_string (et_deadline t)"
  shows "partition_then_sort str2num enriched =
     Some \<lparr> open = sort_key deadline_string
                 (filter (\<lambda>t. truthy (et_deadline t)) (filter (\<lambda>t. \<not> et_isCompleted t) enriched)) @
               filter (\<lambda>t. \<not> truthy (et_deadline t)) (filter (\<lambda>t. \<not> et_isCompleted t) enriched),
             completed = sort_key deadline_string
                 (filter (\<lambda>t. truthy (et_deadline t)) (filter (\<lambda>t. et_isCompleted t) enriched)) @
               filter (\<lambda>t. \<not> truthy (et_deadline t)) (filter (\<lambda>t. et_isCompleted t) enriched) \<rparr>"
proof -
  have 1: "\<forall>t \<in> set (filter P enriched). truthy (et_deadline t) \<longrightarrow> is_string (et_deadline t)" for P
    using str by simp
  show ?thesis
    by (simp add: partition_then_sort_def sort_by_deadline_strings[OF 1] del: filter_filter)
qed

lemma enrichTasks_concrete:
  "enrichTasks str2num
     [JObj [(''id'', JStr ''t1''), (''is_completed'', JBool False), (''deadline'', JStr ''2026-02-15'')],
      JObj [(''id'', JStr ''t2''), (''is_completed'', JBool True), (''deadline'', JStr ''2026-02-10'')],
      JObj [(''id'', JStr ''t3''), (''is_completed'', JBool False), (''deadline'', JNull)]]
     memberMap recordNameMap =
   Some \<lparr> open = [\<lparr>et_id = JStr ''t1'', et_content = JNull, et_isCompleted = False,
                      et_deadline = JStr ''2026-02-15'', et_assignees = [], et_linkedRecords = []\<rparr>,
                    \<lparr>et_id = JStr ''t3'', et_content = JNull, et_isCompleted = False,
                      et_deadline = JNull, et_assignees = [], et_linkedRecords = []\<rparr>],
           completed = [\<lparr>et_id = JStr ''t2'', et_content = JNull, et_isCompleted = True,
                      et_deadline = JStr ''2026-02-10'', et_assignees = [], et_linkedRecords = []\<rparr>] \<rparr>"
  by (simp add: enrichTasks_def enrich_task_def map_or_empty_def get_strict_def nullish_def js_or_def
      get_opt_def sort_by_deadline_def js_sort_def deadline_cmp_def js_lt_strings)

lemma enriched_concrete:
  "mapM (enrich_task memberMap recordNameMap)
     [JObj [(''id'', JStr ''t1''), (''is_completed'', JBool False), (''deadline'', JStr ''2026-02-15'')],
      JObj [(''id'', JStr ''t2''), (''is_completed'', JBool True), (''deadline'', JStr ''2026-02-10'')],
      JObj [(''id'', JStr ''t3''), (''is_completed'', JBool False), (''deadline'', JNull)]] =
   Some [\<lparr>et_id = JStr ''t1'', et_content = JNull, et_isCompleted = False,
            et_deadline = JStr ''2026-02-15'', et_assignees = [], et_linkedRecords = []\<rparr>,
         \<lparr>et_id = JStr ''t2'', et_content = JNull, et_isCompleted = True,
            et_deadline = JStr ''2026-02-10'', et_assignees = [], et_linkedRecords = []\<rparr>,
         \<lparr>et_id = JStr ''t3'', et_content = JNull, et_isCompleted = False,
            et_deadline = JNull, et_assignees = [], et_linkedRecords = []\<rparr>]"
  by (simp add: enrich_task_def map_or_empty_def get_strict_def nullish_def js_or_def get_opt_def)

text \<open>
  C5. When every deadline is a string or absent, \<^verbatim>\<open>enrichTasks\<close>, which applies the
  deadline rule to all enriched tasks and then splits them by the completion flag,
  returns what partitioning first and applying the rule to each partition returns. Each
  sublist holds its tasks with a deadline in ascending order of the deadline strings,
  tasks with equal deadlines in input order, and then its tasks without a deadline in
  input order. For the three tasks of the example, \<^verbatim>\<open>open\<close> has the deadlines
  2026-02-15 and \<^verbatim>\<open>null\<close>, and \<^verbatim>\<open>completed\<close> the deadline 2026-02-10.
\<close>

theorem partition_order_independent:
  "(mapM (enrich_task memberMap recordNameMap) tasks = Some enriched \<and>
    (\<forall>t \<in> set enriched. truthy (et_deadline t) \<longrightarrow> is_string (et_deadline t)) \<longrightarrow>
      enrichTasks str2num tasks memberMap recordNameMap = partition_then_sort str2num enriched \<and>
      (\<exists>res. enrichTasks str2num tasks memberMap recordNameMap = Some res \<and>
         open res =
           sort_key deadline_string
             (filter (\<lambda>t. truthy (et_deadline t)) (filter (\<lambda>t. \<not> et_isCompleted t) enriched)) @
           filter (\<lambda>t. \<not> truthy (et_deadline t)) (filter (\<lambda>t. \<not> et_isCompleted t) enriched) \<and>
         completed res =
           sort_key deadline_string
             (filter (\<lambda>t. truthy (et_deadline t)) (filter (\<lambda>t. et_isCompleted t) enriched)) @
           filter (\<lambda>t. \<not> truthy (et_deadline t)) (filter (\<lambda>t. et_isCompleted t) enriched))) \<and>
   map_option (\<lambda>res. (map et_deadline (open res), map et_deadline (completed res)))
     (enrichTasks str2num
        [JObj [(''id'', JStr ''t1''), (''is_completed'', JBool False), (''deadline'', JStr ''2026-02-15'')],
         JObj [(''id'', JStr ''t2''), (''is_completed'', JBool True), (''deadline'', JStr ''2026-02-10'')],
         JObj [(''id'', JStr ''t3''), (''is_completed'', JBool False), (''deadline'', JNull)]]
        memberMap recordNameMap) =
     Some ([JStr ''2026-02-15'', JNull], [JStr ''2026-02-10''])"
proof (intro conjI impI)
  assume h: "mapM (enrich_task memberMap recordNameMap) tasks = Some enriched \<and>
    (\<forall>t \<in> set enriched. truthy (et_deadline t) \<longrightarrow> is_string (et_deadline t))"
  then have en: "mapM (enrich_task memberMap recordNameMap) tasks = Some enriched"
    and str: "\<forall>t \<in> set enriched. truthy (et_deadline t) \<longrightarrow> is_string (et_deadline t)"
    by simp_all
  show "enrichTasks str2num tasks memberMap recordNameMap = partition_then_sort str2num enriched"
    by (simp only: enrichTasks_eq[OF en str] partition_then_sort_eq[OF str])
  show "\<exists>res. enrichTasks str2num tasks memberMap recordNameMap = Some res \<and>
         open res =
           sort_key deadline_string
             (filter (\<lambda>t. truthy (et_deadline t)) (filter (\<lambda>t. \<not> et_isCompleted t) enriched)) @
           filter (\<lambda>t. \<not> truthy (et_deadline t)) (filter (\<lambda>t. \<not> et_isCompleted t) enriched) \<and>
         completed res =
           sort_key deadline_string
             (filter (\<lambda>t. truthy (et_deadline t)) (filter (\<lambda>t. et_isCompleted t) enriched)) @
           filter (\<lambda>t. \<not> truthy (et_deadline t)) (filter (\<lambda>t. et_isCompleted t) enriched)"
    by (simp only: enrichTasks_eq[OF en str]) simp
next
  show "map_option (\<lambda>res. (map et_deadline (open res), map et_deadline (completed res)))
     (enrichTasks str2num
        [JObj [(''id'', JStr ''t1''), (''is_completed'', JBool False), (''deadline'', JStr ''2026-02-15'')],
         JObj [(''id'', JStr ''t2''), (''is_completed'', JBool True), (''deadline'', JStr ''2026-02-10'')],
         JObj [(''id'', JStr ''t3''), (''is_completed'', JBool False), (''deadline'', JNull)]]
        memberMap recordNameMap) =
     Some ([JStr ''2026-02-15'', JNull], [JStr ''2026-02-10''])"
    by (simp only: enrichTasks_concrete) simp
qed

theorem partition_order_independent_witness:
  "enrichTasks (\<lambda>t. NaN)
     [JObj [(''id'', JStr ''t1''), (''is_completed'', JBool False), (''deadline'', JStr ''2026-02-15'')],
      JObj [(''id'', JStr ''t2''), (''is_completed'', JBool True), (''deadline'', JStr ''2026-02-10'')],
      JObj [(''id'', JStr ''t3''), (''is_completed'', JBool False), (''deadline'', JNull)]]
     Map.empty Map.empty =
   partition_then_sort (\<lambda>t. NaN)
     [\<lparr>et_id = JStr ''t1'', et_content = JNull, et_isCompleted = False,
        et_deadline = JStr ''2026-02-15'', et_assignees = [], et_linkedRecords = []\<rparr>,
      \<lparr>et_id = JStr ''t2'', et_content = JNull, et_isCompleted = True,
        et_deadline = JStr ''2026-02-10'', et_assignees = [], et_linkedRecords = []\<rparr>,
      \<lparr>et_id = JStr ''t3'', et_content = JNull, et_isCompleted = False,
        et_deadline = JNull, et_assignees = [], et_linkedRecords = []\<rparr>]"
proof -
  let ?ts = "[JObj [(''id'', JStr ''t1''), (''is_completed'', JBool False), (''deadline'', JStr ''2026-02-15'')],
      JObj [(''id'', JStr ''t2''), (''is_completed'', JBool True), (''deadline'', JStr ''2026-02-10'')],
      JObj [(''id'', JStr ''t3''), (''is_completed'', JBool False), (''deadline'', JNull)]]"
  let ?en = "[\<lparr>et_id = JStr ''t1'', et_content = JNull, et_isCompleted = False,
        et_deadline = JStr ''2026-02-15'', et_assignees = [], et_linkedRecords = []\<rparr>,
      \<lparr>et_id = JStr ''t2'', et_content = JNull, et_isCompleted = True,
        et_deadline = JStr ''2026-02-10'', et_assignees = [], et_linkedRecords = []\<rparr>,
      \<lparr>et_id = JStr ''t3'', et_content = JNull, et_isCompleted = False,
        et_deadline = JNull, et_assignees = [], et_linkedRecords = []\<rparr>]"
  have en: "mapM (enrich_task Map.empty Map.empty) ?ts = Some ?en"
    by (rule enriched_concrete)
  have str: "\<forall>t \<in> set ?en. truthy (et_deadline t) \<longrightarrow> is_string (et_deadline t)"
    by (simp add: is_string_def)
  from partition_order_independent[of Map.empty Map.empty ?ts ?en "\<lambda>t. NaN"] en str
  show ?thesis by blast
qed

text \<open>
  C10. Whenever \<^verbatim>\<open>enrichTasks\<close> returns, its two lists together hold every enriched
  task exactly once, the open ones in \<^verbatim>\<open>open\<close> and the completed ones in
  \<^verbatim>\<open>completed\<close>, so that the two lengths add up to the number of input tasks. It
  returns whenever every single task can be enriched: sorting and partitioning never
  throw.
\<close>

theorem partition_no_loss:
  "(enrichTasks str2num tasks memberMap recordNameMap = Some res \<longrightarrow>
      length (open res) + length (completed res) = length tasks \<and>
      (\<exists>enriched. mapM (enrich_task memberMap recordNameMap) tasks = Some enriched \<and>
         mset (open res) + mset (completed res) = mset enriched) \<and>
      (\<forall>t \<in> set (open res). \<not> et_isCompleted t) \<and>
      (\<forall>t \<in> set (completed res). et_isCompleted t)) \<and>
   ((\<forall>t \<in> set tasks. \<exists>e. enrich_task memberMap recordNameMap t = Some e) \<longrightarrow>
      (\<exists>out. enrichTasks str2num tasks memberMap recordNameMap = Some out))"
proof (intro conjI impI)
  assume h: "enrichTasks str2num tasks memberMap recordNameMap = Some res"
  then obtain enriched sorted where
    en: "mapM (enrich_task memberMap recordNameMap) tasks = Some enriched" and
    so: "sort_by_deadline str2num enriched = Some sorted" and
    res: "res = \<lparr> open = filter (\<lambda>t. \<not> et_isCompleted t) sorted,
                   completed = filter (\<lambda>t. et_isCompleted t) sorted \<rparr>"
    by (auto simp: enrichTasks_def split: Option.bind_splits)
  from sort_by_deadline_total[of str2num enriched] so have ms: "mset sorted = mset enriched"
    by auto
  then have "length sorted = length enriched" by (rule mset_eq_length)
  moreover have "length enriched = length tasks" using en by (rule mapM_length)
  moreover have "length (filter (\<lambda>t. \<not> et_isCompleted t) sorted) +
      length (filter (\<lambda>t. et_isCompleted t) sorted) = length sorted"
    using sum_length_filter_compl[of "\<lambda>t. et_isCompleted t" sorted] by simp
  ultimately show "length (open res) + length (completed res) = length tasks"
    by (simp add: res)
  have "mset (filter (\<lambda>t. \<not> et_isCompleted t) sorted) + mset (filter (\<lambda>t. et_isCompleted t) sorted) =
      mset sorted"
    by (simp add: union_commute)
  with ms en show "\<exists>enriched. mapM (enrich_task memberMap recordNameMap) tasks = Some enriched \<and>
         mset (open res) + mset (completed res) = mset enriched"
    by (simp add: res)
  show "\<forall>t \<in> set (open res). \<not> et_isCompleted t" by (simp add: res)
  show "\<forall>t \<in> set (completed res). et_isCompleted t" by (simp add: res)
next
  assume "\<forall>t \<in> set tasks. \<exists>e. enrich_task memberMap recordNameMap t = Some e"
  then obtain enriched where en: "mapM (enrich_task memberMap recordNameMap) tasks = Some enriched"
    using mapM_total by blast
  from sort_by_deadline_total[of str2num enriched] obtain sorted where
    "sort_by_deadline str2num enriched = Some sorted" by blast
  with en show "\<exists>out. enrichTasks str2num tasks memberMap recordNameMap = Some out"
    by (simp add: enrichTasks_def)
qed

theorem partition_no_loss_witness:
  "enrichTasks (\<lambda>t. NaN)
     [JObj [(''id'', JStr ''t1''), (''is_completed'', JBool False), (''deadline'', JStr ''2026-02-15'')],
      JObj [(''id'', JStr ''t2''), (''is_completed'', JBool True), (''deadline'', JStr ''2026-02-10'')],
      JObj [(''id'', JStr ''t3''), (''is_completed'', JBool False), (''deadline'', JNull)]]
     Map.empty Map.empty =
   Some \<lparr> open = [\<lparr>et_id = JStr ''t1'', et_content = JNull, et_isCompleted = False,
                      et_deadline = JStr ''2026-02-15'', et_assignees = [], et_linkedRecords = []\<rparr>,
                    \<lparr>et_id = JStr ''t3'', et_content = JNull, et_isCompleted = False,
                      et_deadline = JNull, et_assignees = [], et_linkedRecords = []\<rparr>],
           completed = [\<lparr>et_id = JStr ''t2'', et_content = JNull, et_isCompleted = True,
                      et_deadline = JStr ''2026-02-10'', et_assignees = [], et_linkedRecords = []\<rparr>] \<rparr> \<and>
   length [\<lparr>et_id = JStr ''t1'', et_content = JNull, et_isCompleted = False,
                      et_deadline = JStr ''2026-02-15'', et_assignees = [], et_linkedRecords = []\<rparr>,
           \<lparr>et_id = JStr ''t3'', et_content = JNull, et_isCompleted = False,
                      et_deadline = JNull, et_assignees = [], et_linkedRecords = []\<rparr>] +
   length [\<lparr>et_id = JStr ''t2'', et_content = JNull, et_isCompleted = True,
                      et_deadline = JStr ''2026-02-10'', et_assignees = [], et_linkedRecords = []\<rparr>] =
   length [JObj [(''id'', JStr ''t1''), (''is_completed'', JBool False), (''deadline'', JStr ''2026-02-15'')],
      JObj [(''id'', JStr ''t2''), (''is_completed'', JBool True), (''deadline'', JStr ''2026-02-10'')],
      JObj [(''id'', JStr ''t3''), (''is_completed'', JBool False), (''deadline'', JNull)]]"
proof -
  let ?ts = "[JObj [(''id'', JStr ''t1''), (''is_completed'', JBool False), (''deadline'', JStr ''2026-02-15'')],
      JObj [(''id'', JStr ''t2''), (''is_completed'', JBool True), (''deadline'', JStr ''2026-02-10'')],
      JObj [(''id'', JStr ''t3''), (''is_completed'', JBool False), (''deadline'', JNull)]]"
  let ?res = "\<lparr> open = [\<lparr>et_id = JStr ''t1'', et_content = JNull, et_isCompleted = False,
                      et_deadline = JStr ''2026-02-15'', et_assignees = [], et_linkedRecords = []\<rparr>,
                    \<lparr>et_id = JStr ''t3'', et_content = JNull, et_isCompleted = False,
                      et_deadline = JNull, et_assignees = [], et_linkedRecords = []\<rparr>],
           completed = [\<lparr>et_id = JStr ''t2'', et_content = JNull, et_isCompleted = True,
                      et_deadline = JStr ''2026-02-10'', et_assignees = [], et_linkedRecords = []\<rparr>] \<rparr>"
  have run: "enrichTasks (\<lambda>t. NaN) ?ts Map.empty Map.empty = Some ?res"
    by (rule enrichTasks_concrete)
  from partition_no_loss[of "\<lambda>t. NaN" ?ts Map.empty Map.empty ?res] run
  show ?thesis by simp
qed

section \<open>Timeline\<close>









end
